theory Spec2Isabelle
  imports Main "HOL-Library.AList"
begin

section \<open>Python values, errors and strings\<close>

text \<open>
  The program under study is \<^verbatim>\<open>src/main.py\<close>: it scrapes HTML attribute tables and
  assembles an OpenAPI-style document out of Python dictionaries.  Dictionaries are
  modelled as association lists in insertion order (\<open>AList.update\<close> overwrites in place
  or appends, as \<^verbatim>\<open>d[k] = v\<close> does), exceptions as the left summand of a sum type.

  Python strings are sequences of Unicode code points.  Where the code only compares
  strings, concatenates them, tests them for emptiness or strips leading \<^verbatim>\<open>#\<close>
  characters (the whole of \<^verbatim>\<open>parse_attributes_table\<close> and \<^verbatim>\<open>main\<close>, but for
  one call of \<^verbatim>\<open>str.lower\<close>), a string is the Isabelle string of its UTF-8 bytes:
  all these operations commute with the encoding.  \<^verbatim>\<open>str.lower\<close>, which consults
  the Unicode character database, is a parameter \<open>lower\<close> of the functions that reach
  it, so that what is proved of them holds of the method itself.
  \<^verbatim>\<open>to_camel_case\<close> inspects single characters; its strings are lists of code points.
\<close>

datatype py_error = AttributeError | ValueError | KeyError | IndexError | AssertionError

datatype pyval =
    PNone
  | PStr string
  | PList "pyval list"
  | PDict "(pyval \<times> pyval) list"

type_synonym pydict = "(pyval \<times> pyval) list"

text \<open>Truth value of an object in an \<^verbatim>\<open>if x:\<close> test.\<close>

fun truthy :: "pyval \<Rightarrow> bool" where
  "truthy PNone = False"
| "truthy (PStr s) = (s \<noteq> [])"
| "truthy (PList xs) = (xs \<noteq> [])"
| "truthy (PDict d) = (d \<noteq> [])"

text \<open>\<^verbatim>\<open>s.lstrip('#')\<close>: every leading \<^verbatim>\<open>#\<close> is removed.\<close>

definition lstrip_hash :: "string \<Rightarrow> string" where
  "lstrip_hash s = dropWhile (\<lambda>c. c = CHR ''#'') s"

section \<open>\<^verbatim>\<open>to_camel_case\<close>\<close>

text \<open>
  A string is the list of its code points; \<open>lit\<close> turns an ASCII literal into one.
\<close>

type_synonym codepoint = nat

type_synonym pystr = "codepoint list"

definition cp :: "char \<Rightarrow> codepoint" where
  "cp c = of_char c"

definition lit :: "string \<Rightarrow> pystr" where
  "lit s = map cp s"

text \<open>
  The characters at which \<^verbatim>\<open>str.split()\<close> splits: the code points Python counts as
  whitespace, namely tab to carriage return, the separators U+001C to U+001F, the
  space, U+0085, U+00A0, U+1680, U+2000 to U+200A, U+2028, U+2029, U+202F, U+205F and
  U+3000.
\<close>

definition isspace :: "codepoint \<Rightarrow> bool" where
  "isspace c =
     (c \<in> set [0x09, 0x0A, 0x0B, 0x0C, 0x0D, 0x1C, 0x1D, 0x1E, 0x1F, 0x20, 0x85, 0xA0,
                 0x1680, 0x2000, 0x2001, 0x2002, 0x2003, 0x2004, 0x2005, 0x2006, 0x2007,
                 0x2008, 0x2009, 0x200A, 0x2028, 0x2029, 0x202F, 0x205F, 0x3000])"

text \<open>\<^verbatim>\<open>s.replace(old, new)\<close> for one-character \<^verbatim>\<open>old\<close> and \<^verbatim>\<open>new\<close>.\<close>

definition replace_char :: "codepoint \<Rightarrow> codepoint \<Rightarrow> pystr \<Rightarrow> pystr" where
  "replace_char old new s = map (\<lambda>c. if c = old then new else c) s"

text \<open>
  Splitting at every run of characters satisfying \<open>sep\<close>, empty pieces dropped; the
  first argument is the piece being read.  \<^verbatim>\<open>s.split()\<close> is the instance for
  whitespace.
\<close>

fun split_on :: "(codepoint \<Rightarrow> bool) \<Rightarrow> pystr \<Rightarrow> pystr \<Rightarrow> pystr list" where
  "split_on sep cur [] = (if cur = [] then [] else [cur])"
| "split_on sep cur (c # cs) =
     (if sep c then (if cur = [] then split_on sep [] cs else cur # split_on sep [] cs)
      else split_on sep (cur @ [c]) cs)"

definition py_split :: "pystr \<Rightarrow> pystr list" where
  "py_split s = split_on isspace [] s"

text \<open>
  \<^verbatim>\<open>
  def to_camel_case(text):
      s = text.replace("-", " ").replace("_", " ")
      s = s.split()
      if len(text) == 0:
          return text
      return s[0] + ''.join(i.capitalize() for i in s[1:])
  \<close>
  \<^verbatim>\<open>s[0]\<close> raises \<^verbatim>\<open>IndexError\<close> on the empty list.  \<^verbatim>\<open>str.capitalize\<close>
  consults the Unicode character database and may change the length of a word; it is
  the parameter \<open>capitalize\<close>.
\<close>

definition to_camel_case :: "(pystr \<Rightarrow> pystr) \<Rightarrow> pystr \<Rightarrow> py_error + pystr" where
  "to_camel_case capitalize text =
     (let s = replace_char (cp CHR ''_'') (cp CHR '' '')
                (replace_char (cp CHR ''-'') (cp CHR '' '') text);
          s = py_split s
      in if length text = 0 then Inr text
         else (case s of
                 [] \<Rightarrow> Inl IndexError
               | w # ws \<Rightarrow> Inr (w @ concat (map capitalize ws))))"

text \<open>
  What \<^verbatim>\<open>str.capitalize\<close> does to a word of ASCII characters: the first letter
  upper-cased, every other letter lower-cased.
\<close>

definition ascii_capitalize :: "pystr \<Rightarrow> pystr" where
  "ascii_capitalize w =
     (case w of
        [] \<Rightarrow> []
      | c # cs \<Rightarrow>
          (if 97 \<le> c \<and> c \<le> 122 then c - 32 else c)
          # map (\<lambda>d. if 65 \<le> d \<and> d \<le> 90 then d + 32 else d) cs)"

text \<open>
  The transformation as the specification words it: the input is split at spaces,
  hyphens and underscores, the first word is kept, every later word is capitalized,
  and the empty string yields itself.
\<close>

definition spec_separator :: "codepoint \<Rightarrow> bool" where
  "spec_separator c = (c = cp CHR '' '' \<or> c = cp CHR ''-'' \<or> c = cp CHR ''_'')"

definition camelCase_spec :: "(pystr \<Rightarrow> pystr) \<Rightarrow> pystr \<Rightarrow> pystr" where
  "camelCase_spec capitalize text =
     (case split_on spec_separator [] text of
        [] \<Rightarrow> []
      | w # ws \<Rightarrow> w @ concat (map capitalize ws))"

text \<open>The characters at which the code really splits.\<close>

definition code_separator :: "codepoint \<Rightarrow> bool" where
  "code_separator c = (isspace c \<or> c = cp CHR ''-'' \<or> c = cp CHR ''_'')"

section \<open>The HTML tree\<close>

text \<open>
  What the code reads of a Beautiful Soup tree: text nodes and elements with a tag
  name, an attribute dictionary and a list of children.
\<close>

datatype node =
    Text string
  | Elem string "(string \<times> string) list" "node list"

text \<open>\<^verbatim>\<open>tag.children\<close>.\<close>

fun contents :: "node \<Rightarrow> node list" where
  "contents (Text s) = []"
| "contents (Elem n a cs) = cs"

text \<open>The test \<^verbatim>\<open>if tag.name\<close>: the name of a text node is \<^verbatim>\<open>None\<close>.\<close>

fun has_name :: "node \<Rightarrow> bool" where
  "has_name (Text s) = False"
| "has_name (Elem n a cs) = (n \<noteq> [])"

text \<open>All nodes below a node, in document order.\<close>

fun descendants :: "node \<Rightarrow> node list" where
  "descendants (Text s) = []"
| "descendants (Elem n a cs) = concat (map (\<lambda>c. c # descendants c) cs)"

fun is_tag :: "string \<Rightarrow> node \<Rightarrow> bool" where
  "is_tag name (Text s) = False"
| "is_tag name (Elem n a cs) = (n = name)"

text \<open>\<^verbatim>\<open>tag.code\<close>, \<^verbatim>\<open>tag.div\<close>, \<^verbatim>\<open>tag.a\<close>, \<^verbatim>\<open>tag.tbody\<close>: the first element of that
  name below the tag, or \<^verbatim>\<open>None\<close>.\<close>

definition find_tag :: "string \<Rightarrow> node \<Rightarrow> node option" where
  "find_tag name t = find (is_tag name) (descendants t)"

text \<open>\<^verbatim>\<open>tag.find_all(name)\<close>.\<close>

definition find_all :: "string \<Rightarrow> node \<Rightarrow> node list" where
  "find_all name t = filter (is_tag name) (descendants t)"

text \<open>\<^verbatim>\<open>tag.strings\<close>: the text nodes below the tag, in document order.\<close>

fun text_of :: "node \<Rightarrow> string option" where
  "text_of (Text s) = Some s"
| "text_of (Elem n a cs) = None"

definition strings :: "node \<Rightarrow> string list" where
  "strings t = List.map_filter text_of (descendants t)"

text \<open>\<^verbatim>\<open>tag.get_text()\<close>.\<close>

definition get_text :: "node \<Rightarrow> string" where
  "get_text t = concat (strings t)"

text \<open>\<^verbatim>\<open>tag.string\<close>: the text of the only child, looked up through only children;
  \<^verbatim>\<open>None\<close> when a tag has no child or several.\<close>

fun dot_string :: "node \<Rightarrow> pyval" where
  "dot_string (Text s) = PStr s"
| "dot_string (Elem n a [c]) = dot_string c"
| "dot_string (Elem n a cs) = PNone"

text \<open>\<^verbatim>\<open>tag.attrs[key]\<close>; \<open>None\<close> stands for the \<^verbatim>\<open>KeyError\<close>.\<close>

fun attrs :: "node \<Rightarrow> (string \<times> string) list" where
  "attrs (Text s) = []"
| "attrs (Elem n a cs) = a"

definition attr :: "string \<Rightarrow> node \<Rightarrow> string option" where
  "attr key t = map_of (attrs t) key"

section \<open>\<^verbatim>\<open>parse_attributes_table\<close>\<close>

text \<open>Calls of \<^verbatim>\<open>Actor.log\<close>, with the value each message is formatted from.\<close>

datatype log_entry =
    Info_Dereferencing string
  | Error_Unknow_type string
  | Error_Couldnt_make_sense node

definition SIMPLE_TYPES :: "(string \<times> (pyval \<times> pyval)) list" where
  "SIMPLE_TYPES =
     [(''String'', (PStr ''string'', PNone)),
      (''Integer'', (PStr ''integer'', PNone)),
      (''Boolean'', (PStr ''boolean'', PNone)),
      (''DateTime'', (PStr ''string'', PStr ''date-time'')),
      (''Datetime'', (PStr ''string'', PStr ''date-time'')),
      (''Date'', (PStr ''string'', PStr ''date'')),
      (''Decimal'', (PStr ''number'', PStr ''decimal''))]"

text \<open>
  \<^verbatim>\<open>
  def dereference(object_name: str):
      Actor.log.info(f"Dereferencing {object_name}")
      return object_name.lstrip('#')
  \<close>
  The value and the message logged.
\<close>

definition dereference :: "string \<Rightarrow> string \<times> log_entry list" where
  "dereference object_name = (lstrip_hash object_name, [Info_Dereferencing object_name])"

text \<open>
  Lines 98 to 102 of the loop body: the read-only flag and whether the property name
  is appended to \<^verbatim>\<open>required\<close>.  A \<^verbatim>\<open>div\<close> without a \<^verbatim>\<open>title\<close> raises
  \<^verbatim>\<open>KeyError\<close>.
\<close>

definition visibility :: "node \<Rightarrow> py_error + (bool \<times> bool)" where
  "visibility vis_td =
     (case find_tag ''div'' vis_td of
        None \<Rightarrow> Inr (False, False)
      | Some d \<Rightarrow>
          (case attr ''title'' d of
             None \<Rightarrow> Inl KeyError
           | Some title \<Rightarrow>
               Inr (title = ''Read-only attribute'', title = ''Required attribute'')))"

text \<open>
  Lines 104 to 122 of the loop body, the type resolution: the values of
  \<^verbatim>\<open>prop_type\<close>, \<^verbatim>\<open>items\<close> and \<^verbatim>\<open>prop_format\<close> after the
  \<^verbatim>\<open>if\<close>/\<^verbatim>\<open>elif\<close>/\<^verbatim>\<open>else\<close>, and the messages logged.  The parameter
  \<open>lower\<close> is \<^verbatim>\<open>str.lower\<close>.
  \<^verbatim>\<open>
  soup_type_strings = list(type_td.code.strings)
  prop_type = None
  items = []
  prop_format = None
  if len(soup_type_strings) == 3 and soup_type_strings == ['Array[', 'Object', ']']:
      prop_obj_type = dereference(type_td.code.a.attrs['href'])
      prop_type = 'array'
      items = {'$ref': f'#/components/schemas/{prop_obj_type}'}
  elif len(soup_type_strings) == 1:
      resolved_type = SIMPLE_TYPES.get(soup_type_strings[0], None)
      if resolved_type == None:
          Actor.log.error(f"Unknow type {soup_type_strings[0]}")
          prop_format = soup_type_strings[0].lower()
          prop_type = 'string'
      else:
          prop_type, prop_format = resolved_type
  else:
      Actor.log.error(f"Couldn't make sense of {type_td}")
  \<close>
\<close>

definition resolve_type ::
  "(string \<Rightarrow> string) \<Rightarrow> node \<Rightarrow> py_error + (pyval \<times> pyval \<times> pyval \<times> log_entry list)" where
  "resolve_type lower type_td =
     (case find_tag ''code'' type_td of
        None \<Rightarrow> Inl AttributeError
      | Some tcode \<Rightarrow>
          (let soup_type_strings = strings tcode in
           if length soup_type_strings = 3
              \<and> soup_type_strings = [''Array['', ''Object'', '']'']
           then
             (case find_tag ''a'' tcode of
                None \<Rightarrow> Inl AttributeError
              | Some a \<Rightarrow>
                  (case attr ''href'' a of
                     None \<Rightarrow> Inl KeyError
                   | Some href \<Rightarrow>
                       (let (prop_obj_type, msgs) = dereference href
                        in Inr (PStr ''array'',
                                PDict [(PStr ''$ref'',
                                        PStr (''#/components/schemas/'' @ prop_obj_type))],
                                PNone,
                                msgs))))
           else if length soup_type_strings = 1
           then
             (case map_of SIMPLE_TYPES (hd soup_type_strings) of
                None \<Rightarrow>
                  Inr (PStr ''string'', PList [], PStr (lower (hd soup_type_strings)),
                       [Error_Unknow_type (hd soup_type_strings)])
              | Some (prop_type, prop_format) \<Rightarrow>
                  Inr (prop_type, PList [], prop_format, []))
           else Inr (PNone, PList [], PNone, [Error_Couldnt_make_sense type_td])))"

text \<open>
  Lines 124 to 131: the dictionary stored under the property name.
  \<^verbatim>\<open>
  properties[prop_name] = {"type": prop_type, "description": desc_td.get_text()}
  if items:
      properties[prop_name]['items'] = items
  if prop_format:
      properties[prop_name]['format'] = prop_format
  \<close>
\<close>

definition property_dict :: "pyval \<Rightarrow> string \<Rightarrow> pyval \<Rightarrow> pyval \<Rightarrow> pydict" where
  "property_dict prop_type description items prop_format =
     (let p = [(PStr ''type'', prop_type), (PStr ''description'', PStr description)];
          p = (if truthy items then AList.update (PStr ''items'') items p else p);
          p = (if truthy prop_format then AList.update (PStr ''format'') prop_format p else p)
      in p)"

text \<open>
  The variables of \<^verbatim>\<open>parse_attributes_table\<close> that live across rows, and the
  messages logged so far.
\<close>

record tstate =
  required :: "pyval list"
  properties :: pydict
  log :: "log_entry list"

text \<open>
  One pass through the body of \<^verbatim>\<open>for tr in table.tbody.find_all('tr')\<close>.
  Unpacking \<^verbatim>\<open>row_items\<close> into four names raises \<^verbatim>\<open>ValueError\<close> unless the row
  has exactly four element children; \<^verbatim>\<open>attribute_td.code.string\<close> raises
  \<^verbatim>\<open>AttributeError\<close> when the cell has no \<^verbatim>\<open>code\<close> element.
\<close>

definition loop_body :: "(string \<Rightarrow> string) \<Rightarrow> node \<Rightarrow> tstate \<Rightarrow> py_error + tstate" where
  "loop_body lower tr st =
     (case filter has_name (contents tr) of
        [vis_td, attribute_td, type_td, desc_td] \<Rightarrow>
          (case find_tag ''code'' attribute_td of
             None \<Rightarrow> Inl AttributeError
           | Some acode \<Rightarrow>
               (let prop_name = dot_string acode in
                case visibility vis_td of
                  Inl e \<Rightarrow> Inl e
                | Inr (readonly, is_required) \<Rightarrow>
                    (let required' =
                           (if is_required then required st @ [prop_name] else required st)
                     in case resolve_type lower type_td of
                          Inl e \<Rightarrow> Inl e
                        | Inr (prop_type, items, prop_format, msgs) \<Rightarrow>
                            Inr \<lparr>required = required',
                                 properties =
                                   AList.update prop_name
                                     (PDict (property_dict prop_type (get_text desc_td)
                                               items prop_format))
                                     (properties st),
                                 log = log st @ msgs\<rparr>)))
      | _ \<Rightarrow> Inl ValueError)"

fun rows_loop :: "(string \<Rightarrow> string) \<Rightarrow> node list \<Rightarrow> tstate \<Rightarrow> py_error + tstate" where
  "rows_loop lower [] st = Inr st"
| "rows_loop lower (tr # trs) st =
     (case loop_body lower tr st of
        Inl e \<Rightarrow> Inl e
      | Inr st' \<Rightarrow> rows_loop lower trs st')"

text \<open>
  The function returns the pair \<^verbatim>\<open>(properties, required)\<close>; the model returns the
  final state, which holds both and the log.
\<close>

definition parse_attributes_table :: "(string \<Rightarrow> string) \<Rightarrow> node \<Rightarrow> py_error + tstate" where
  "parse_attributes_table lower table =
     (case find_tag ''tbody'' table of
        None \<Rightarrow> Inl AttributeError
      | Some tbody \<Rightarrow>
          rows_loop lower (find_all ''tr'' tbody) \<lparr>required = [], properties = [], log = []\<rparr>)"

text \<open>
  The property name the loop reads off a row (lines 95 to 97), if the row has four
  cells and a \<^verbatim>\<open>code\<close> element in its attribute cell.
\<close>

definition prop_name_of :: "node \<Rightarrow> pyval option" where
  "prop_name_of tr =
     (case filter has_name (contents tr) of
        [vis_td, attribute_td, type_td, desc_td] \<Rightarrow>
          map_option dot_string (find_tag ''code'' attribute_td)
      | _ \<Rightarrow> None)"

section \<open>\<^verbatim>\<open>main\<close>: the registry and the document\<close>

text \<open>
  The inner loop of \<^verbatim>\<open>main\<close> over the dictionary one page yielded:
  \<^verbatim>\<open>
  for cls_name, definition in schemas.items():
      assert cls_name not in openapi_components["schemas"]
      openapi_components["schemas"][cls_name] = definition
  \<close>
  The result is the registry as the loop leaves it, and the exception that ended the
  loop, if one did.  (Assertions are taken as enabled, the interpreter's default.)
\<close>

fun insert_schemas :: "pydict \<Rightarrow> pydict \<Rightarrow> pydict \<times> py_error option" where
  "insert_schemas reg [] = (reg, None)"
| "insert_schemas reg ((cls_name, defn) # items) =
     (if cls_name \<in> set (map fst reg) then (reg, Some AssertionError)
      else insert_schemas (AList.update cls_name defn reg) items)"

text \<open>
  The outer loop, over what \<^verbatim>\<open>parse_page\<close> returned for each page in turn:
  \<open>None\<close> or a dictionary, which \<^verbatim>\<open>if schemas:\<close> skips when it is empty.
\<close>

fun main_loop :: "pydict \<Rightarrow> pydict option list \<Rightarrow> pydict \<times> py_error option" where
  "main_loop reg [] = (reg, None)"
| "main_loop reg (schemas # pages) =
     (case schemas of
        None \<Rightarrow> main_loop reg pages
      | Some d \<Rightarrow>
          if d = [] then main_loop reg pages
          else (case insert_schemas reg d of
                  (reg', None) \<Rightarrow> main_loop reg' pages
                | (reg', Some e) \<Rightarrow> (reg', Some e)))"

definition openapi_info :: pyval where
  "openapi_info =
     PDict
      [(PStr ''title'', PStr ''Webscraped Fakturoid V3 API''),
       (PStr ''description'', PStr ''This is websraped definition of Fakturoid.''),
       (PStr ''contact'',
        PDict [(PStr ''name'', PStr ''Jaroslav Henner''),
               (PStr ''url'', PStr ''https://github.com/jarovo/fakturoid-api/'')]),
       (PStr ''license'',
        PDict [(PStr ''name'',
                PStr (''Webscraped Fakturoid API V3 '' @ [CHR 0xC2, CHR 0xA9]
                      @ '' 2025 by Jaroslav Henner is licensed under CC BY-SA 4.0. ''
                      @ ''To view a copy of this license, visit ''
                      @ ''https://creativecommons.org/licenses/by-sa/4.0/'')),
               (PStr ''url'', PStr ''https://creativecommons.org/licenses/by-sa/4.0/'')]),
       (PStr ''version'', PStr ''3.0.0-draft'')]"

text \<open>
  The dictionary \<^verbatim>\<open>openapi\<close> that \<^verbatim>\<open>main\<close> pushes, as a function of the registry
  \<^verbatim>\<open>openapi_components["schemas"]\<close>.
\<close>

definition openapi :: "pydict \<Rightarrow> pyval" where
  "openapi schemas =
     PDict
      [(PStr ''openapi'', PStr ''3.0.4''),
       (PStr ''info'', openapi_info),
       (PStr ''servers'',
        PDict [(PStr ''url'', PStr ''https://app.fakturoid.cz/api/v3''),
               (PStr ''description'', PStr ''Production Fakturoid server'')]),
       (PStr ''externalDoc'',
        PDict [(PStr ''description'', PStr ''Published documentation''),
               (PStr ''url'', PStr ''https://www.fakturoid.cz/api/v3'')]),
       (PStr ''components'', PDict [(PStr ''schemas'', PDict schemas)])]"

text \<open>The run: the document is pushed only when no page aborted the loop.\<close>

definition main :: "pydict option list \<Rightarrow> py_error + pyval" where
  "main pages =
     (case main_loop [] pages of
        (reg, None) \<Rightarrow> Inr (openapi reg)
      | (reg, Some e) \<Rightarrow> Inl e)"

text \<open>Reading a dictionary value, and the kinds of value.\<close>

fun dict_get :: "pyval \<Rightarrow> string \<Rightarrow> pyval option" where
  "dict_get (PDict d) k = map_of d (PStr k)"
| "dict_get v k = None"

fun is_list :: "pyval \<Rightarrow> bool" where
  "is_list (PList xs) = True"
| "is_list v = False"

fun is_dict :: "pyval \<Rightarrow> bool" where
  "is_dict (PDict d) = True"
| "is_dict v = False"

section \<open>Example inputs\<close>

text \<open>
  Rows, tables and schemas of the shape the documentation pages give rise to, on which
  the properties below are evaluated.
\<close>

text \<open>
  \<^verbatim>\<open>str.lower\<close> on ASCII text, where it maps the letters \<^verbatim>\<open>A\<close> to \<^verbatim>\<open>Z\<close> to
  \<^verbatim>\<open>a\<close> to \<^verbatim>\<open>z\<close> and keeps every other character: the instance of \<open>lower\<close>
  the examples, whose tokens are ASCII, are run with.
\<close>

definition ascii_lower :: "string \<Rightarrow> string" where
  "ascii_lower s =
     map (\<lambda>c. case map_of (zip ''ABCDEFGHIJKLMNOPQRSTUVWXYZ'' ''abcdefghijklmnopqrstuvwxyz'') c of
                 None \<Rightarrow> c
               | Some l \<Rightarrow> l) s"

definition example_vis_td :: "string \<Rightarrow> node" where
  "example_vis_td title = Elem ''td'' [] [Elem ''div'' [(''title'', title)] []]"

definition example_name_td :: "string \<Rightarrow> node" where
  "example_name_td name = Elem ''td'' [] [Elem ''code'' [] [Text name]]"

definition example_type_td :: "node list \<Rightarrow> node" where
  "example_type_td tokens = Elem ''td'' [] [Elem ''code'' [] tokens]"

definition example_desc_td :: "string \<Rightarrow> node" where
  "example_desc_td desc = Elem ''td'' [] [Text desc]"

definition example_row :: "node \<Rightarrow> node \<Rightarrow> node \<Rightarrow> node \<Rightarrow> node" where
  "example_row vis_td attribute_td type_td desc_td =
     Elem ''tr'' [] [Text '' '', vis_td, Text '' '', attribute_td, type_td, desc_td]"

definition example_table :: "node list \<Rightarrow> node" where
  "example_table rows = Elem ''table'' [] [Elem ''thead'' [] [], Elem ''tbody'' [] rows]"

definition example_row_id :: node where
  "example_row_id =
     example_row (example_vis_td ''Required attribute'') (example_name_td ''id'')
       (example_type_td [Text ''Integer'']) (example_desc_td ''The id'')"

definition example_row_lines :: node where
  "example_row_lines =
     example_row (Elem ''td'' [] []) (example_name_td ''lines'')
       (example_type_td
          [Text ''Array['', Elem ''a'' [(''href'', ''#Line'')] [Text ''Object''], Text '']''])
       (example_desc_td ''Invoice lines'')"

definition example_row_unknown :: node where
  "example_row_unknown =
     example_row (example_vis_td ''Read-only attribute'') (example_name_td ''total'')
       (example_type_td [Text ''Float'']) (example_desc_td ''Total'')"

definition example_row_unresolvable :: node where
  "example_row_unresolvable =
     example_row (Elem ''td'' [] []) (example_name_td ''tags'')
       (example_type_td [Text ''Array['', Elem ''i'' [] [Text ''String''], Text '']''])
       (example_desc_td ''Tags'')"

definition example_row_link_outside :: node where
  "example_row_link_outside =
     example_row (Elem ''td'' [] []) (example_name_td ''lines'')
       (Elem ''td'' []
          [Elem ''code'' [] [Text ''Array['', Elem ''span'' [] [Text ''Object''], Text '']''],
           Elem ''a'' [(''href'', ''#Line'')] [Text ''Line'']])
       (example_desc_td ''Invoice lines'')"

definition example_row_nameless :: node where
  "example_row_nameless =
     example_row (Elem ''td'' [] []) (Elem ''td'' [] [Text ''note''])
       (example_type_td [Text ''String'']) (example_desc_td ''A note'')"

definition empty_state :: tstate where
  "empty_state = \<lparr>required = [], properties = [], log = []\<rparr>"

definition example_schema :: "string \<Rightarrow> pyval" where
  "example_schema desc =
     PDict [(PStr ''type'', PStr ''object''),
            (PStr ''properties'',
             PDict [(PStr ''id'',
                     PDict [(PStr ''type'', PStr ''integer''),
                            (PStr ''description'', PStr desc)])])]"

section \<open>Properties of \<^verbatim>\<open>to_camel_case\<close>\<close>

lemmas camel_defs = code_separator_def spec_separator_def isspace_def ascii_capitalize_def
  lit_def cp_def

lemma split_on_cong:
  "(\<And>c. c \<in> set cs \<Longrightarrow> p c = q c) \<Longrightarrow> split_on p cur cs = split_on q cur cs"
  by (induction cs arbitrary: cur) auto

lemma isspace_blank: "isspace (cp CHR '' '')"
  by (simp add: isspace_def cp_def)

lemma split_on_map:
  assumes "\<And>c. p (f c) = q c" and "\<And>c. \<not> q c \<Longrightarrow> f c = c"
  shows "split_on p cur (map f cs) = split_on q cur cs"
  using assms by (induction cs arbitrary: cur) auto

lemma split_on_replace:
  "split_on isspace cur
     (replace_char (cp CHR ''_'') (cp CHR '' '') (replace_char (cp CHR ''-'') (cp CHR '' '') cs))
   = split_on code_separator cur cs"
proof -
  let ?f = "\<lambda>c. if (if c = cp CHR ''-'' then cp CHR '' '' else c) = cp CHR ''_''
                 then cp CHR '' ''
                 else (if c = cp CHR ''-'' then cp CHR '' '' else c)"
  have m: "replace_char (cp CHR ''_'') (cp CHR '' '')
             (replace_char (cp CHR ''-'') (cp CHR '' '') cs) = map ?f cs"
    by (simp add: replace_char_def)
  have p: "isspace (?f c) = code_separator c" for c
    by (simp add: code_separator_def isspace_blank)
  have q: "?f c = c" if "\<not> code_separator c" for c
    using that by (simp add: code_separator_def)
  show ?thesis
    unfolding m by (rule split_on_map) (fact p, fact q)
qed

lemma split_on_empty_iff:
  "split_on sep cur cs = [] \<longleftrightarrow> cur = [] \<and> (\<forall>c\<in>set cs. sep c)"
  by (induction cs arbitrary: cur) auto

lemma split_on_pieces:
  "\<forall>c\<in>set cur. \<not> sep c \<Longrightarrow>
   \<forall>w\<in>set (split_on sep cur cs). w \<noteq> [] \<and> (\<forall>c\<in>set w. \<not> sep c)"
proof (induction cs arbitrary: cur)
  case Nil
  then show ?case by simp
next
  case (Cons a cs)
  show ?case
  proof (cases "sep a")
    case True
    have "\<forall>w\<in>set (split_on sep [] cs). w \<noteq> [] \<and> (\<forall>c\<in>set w. \<not> sep c)"
      by (rule Cons.IH) simp
    with True Cons.prems show ?thesis by simp
  next
    case False
    with Cons.prems have "\<forall>c\<in>set (cur @ [a]). \<not> sep c" by simp
    from Cons.IH [OF this] False show ?thesis by simp
  qed
qed

lemma split_on_concat:
  "concat (split_on sep cur cs) = cur @ filter (\<lambda>c. \<not> sep c) cs"
  by (induction cs arbitrary: cur) auto

lemma to_camel_case_words:
  "to_camel_case capitalize cs =
     (if cs = [] then Inr []
      else (case split_on code_separator [] cs of
              [] \<Rightarrow> Inl IndexError
            | w # ws \<Rightarrow> Inr (w @ concat (map capitalize ws))))"
  by (simp add: to_camel_case_def py_split_def split_on_replace)

lemma camel_case_invoice_line:
  assumes "\<And>w. \<forall>c\<in>set w. c < 128 \<Longrightarrow> capitalize w = ascii_capitalize w"
  shows "to_camel_case capitalize (lit ''invoice-line'') = Inr (lit ''invoiceLine'')"
proof -
  have s: "split_on code_separator [] (lit ''invoice-line'') = [lit ''invoice'', lit ''line'']"
    by (simp add: camel_defs)
  have c: "capitalize (lit ''line'') = lit ''Line''"
    by (subst assms) (simp_all add: camel_defs)
  show ?thesis
    unfolding to_camel_case_words s using c by (simp add: lit_def)
qed

lemma camel_case_invoice_line_item:
  assumes "\<And>w. \<forall>c\<in>set w. c < 128 \<Longrightarrow> capitalize w = ascii_capitalize w"
  shows "to_camel_case capitalize (lit ''Invoice_Line Item'') = Inr (lit ''InvoiceLineItem'')"
proof -
  have s: "split_on code_separator [] (lit ''Invoice_Line Item'')
             = [lit ''Invoice'', lit ''Line'', lit ''Item'']"
    by (simp add: camel_defs)
  have c: "capitalize (lit ''Line'') = lit ''Line''" "capitalize (lit ''Item'') = lit ''Item''"
    by (subst assms, simp_all add: camel_defs)+
  show ?thesis
    unfolding to_camel_case_words s using c by (simp add: lit_def)
qed

text \<open>
  Claim C8, as stated, at the input \<^verbatim>\<open>"a\tb"\<close> (code points 97, 9, 98): the code
  also splits at the tab and returns \<^verbatim>\<open>"aB"\<close>, where splitting at spaces, hyphens
  and underscores alone leaves the single word \<^verbatim>\<open>"a\tb"\<close>.  On these ASCII words
  \<^verbatim>\<open>str.capitalize\<close> is \<open>ascii_capitalize\<close>.
\<close>

theorem camel_case_tab_counterexample:
  "to_camel_case ascii_capitalize [97, 9, 98] = Inr [97, 66]
   \<and> camelCase_spec ascii_capitalize [97, 9, 98] = [97, 9, 98]"
  by (simp add: to_camel_case_words camelCase_spec_def camel_defs)

text \<open>
  Claim C8, amended: \<^verbatim>\<open>to_camel_case\<close> returns the empty string unchanged; on any
  other input it splits at every run of whitespace characters (not only spaces),
  hyphens and underscores, and returns the first word as it is followed by every later
  word capitalized by \<^verbatim>\<open>str.capitalize\<close>, or raises \<^verbatim>\<open>IndexError\<close> when there
  is no word.  The words are non-empty, hold no separator and together make up the
  input without its separators.  The three documented examples hold (on ASCII words
  \<^verbatim>\<open>str.capitalize\<close> upper-cases the first letter and lower-cases the others), and
  on an input that has a word and no whitespace other than spaces the result is the one
  the specification describes.
\<close>

theorem to_camel_case_characterised:
  "to_camel_case capitalize text =
     (if text = [] then Inr []
      else (case split_on code_separator [] text of
              [] \<Rightarrow> Inl IndexError
            | w # ws \<Rightarrow> Inr (w @ concat (map capitalize ws))))
   \<and> (\<forall>w\<in>set (split_on code_separator [] text). w \<noteq> [] \<and> (\<forall>c\<in>set w. \<not> code_separator c))
   \<and> concat (split_on code_separator [] text) = filter (\<lambda>c. \<not> code_separator c) text
   \<and> to_camel_case capitalize [] = Inr []
   \<and> ((\<forall>w. (\<forall>c\<in>set w. c < 128) \<longrightarrow> capitalize w = ascii_capitalize w) \<longrightarrow>
          to_camel_case capitalize (lit ''invoice-line'') = Inr (lit ''invoiceLine'')
        \<and> to_camel_case capitalize (lit ''Invoice_Line Item'') = Inr (lit ''InvoiceLineItem''))
   \<and> ((\<forall>c\<in>set text. isspace c \<longrightarrow> c = cp CHR '' '') \<and> (\<exists>c\<in>set text. \<not> spec_separator c)
        \<longrightarrow> to_camel_case capitalize text = Inr (camelCase_spec capitalize text))"
proof -
  have agree: "to_camel_case capitalize text = Inr (camelCase_spec capitalize text)"
    if ws: "\<forall>c\<in>set text. isspace c \<longrightarrow> c = cp CHR '' ''"
      and word: "\<exists>c\<in>set text. \<not> spec_separator c"
  proof -
    have same: "\<And>c. c \<in> set text \<Longrightarrow> code_separator c = spec_separator c"
      using ws by (auto simp: code_separator_def spec_separator_def isspace_blank)
    have eq: "split_on code_separator [] text = split_on spec_separator [] text"
      by (rule split_on_cong) (rule same)
    from word have ne: "text \<noteq> []" by auto
    from word have "split_on spec_separator [] text \<noteq> []"
      by (simp add: split_on_empty_iff)
    then obtain w ws' where "split_on spec_separator [] text = w # ws'"
      by (cases "split_on spec_separator [] text") auto
    then show ?thesis
      using ne eq by (simp add: to_camel_case_words camelCase_spec_def)
  qed
  have pieces: "\<forall>w\<in>set (split_on code_separator [] text).
                  w \<noteq> [] \<and> (\<forall>c\<in>set w. \<not> code_separator c)"
    by (rule split_on_pieces) simp
  have whole: "concat (split_on code_separator [] text)
                 = filter (\<lambda>c. \<not> code_separator c) text"
    by (simp add: split_on_concat)
  have examples:
    "to_camel_case capitalize (lit ''invoice-line'') = Inr (lit ''invoiceLine'')
     \<and> to_camel_case capitalize (lit ''Invoice_Line Item'') = Inr (lit ''InvoiceLineItem'')"
    if "\<forall>w. (\<forall>c\<in>set w. c < 128) \<longrightarrow> capitalize w = ascii_capitalize w"
    using that camel_case_invoice_line [of capitalize]
      camel_case_invoice_line_item [of capitalize] by blast
  have empty: "to_camel_case capitalize [] = Inr []"
    by (simp add: to_camel_case_words)
  from agree pieces whole examples empty show ?thesis
    by (intro conjI impI) (simp_all add: to_camel_case_words)
qed

theorem to_camel_case_characterised_witness:
  "to_camel_case ascii_capitalize (lit ''foo-bAR baz'')
     = Inr (camelCase_spec ascii_capitalize (lit ''foo-bAR baz''))
   \<and> camelCase_spec ascii_capitalize (lit ''foo-bAR baz'') = lit ''fooBarBaz''
   \<and> to_camel_case ascii_capitalize (lit ''invoice-line'') = Inr (lit ''invoiceLine'')"
proof -
  have h: "(\<forall>c\<in>set (lit ''foo-bAR baz''). isspace c \<longrightarrow> c = cp CHR '' '')
           \<and> (\<exists>c\<in>set (lit ''foo-bAR baz''). \<not> spec_separator c)"
    by (simp add: camel_defs)
  have v: "camelCase_spec ascii_capitalize (lit ''foo-bAR baz'') = lit ''fooBarBaz''"
    by (simp add: camelCase_spec_def camel_defs)
  have a: "\<forall>w. (\<forall>c\<in>set w. c < 128) \<longrightarrow> ascii_capitalize w = ascii_capitalize w"
    by simp
  note t = to_camel_case_characterised [of ascii_capitalize "lit ''foo-bAR baz''"]
  have one: "to_camel_case ascii_capitalize (lit ''foo-bAR baz'')
               = Inr (camelCase_spec ascii_capitalize (lit ''foo-bAR baz''))"
    using t [THEN conjunct2, THEN conjunct2, THEN conjunct2, THEN conjunct2, THEN conjunct2] h
    by (rule mp)
  have two: "to_camel_case ascii_capitalize (lit ''invoice-line'') = Inr (lit ''invoiceLine'')
             \<and> to_camel_case ascii_capitalize (lit ''Invoice_Line Item'')
                 = Inr (lit ''InvoiceLineItem'')"
    using t [THEN conjunct2, THEN conjunct2, THEN conjunct2, THEN conjunct2, THEN conjunct1] a
    by (rule mp)
  from one two v show ?thesis by simp
qed

lemma spec_is_code_separator: "spec_separator c \<Longrightarrow> code_separator c"
  unfolding spec_separator_def code_separator_def using isspace_blank by blast

text \<open>
  Claim C10, as stated, at the input \<^verbatim>\<open>"\t"\<close> (code point 9): the tab is none of
  space, hyphen and underscore, so the input contains a non-separator character, and
  yet the call fails.
\<close>

theorem to_camel_case_tab_fails:
  "to_camel_case ascii_capitalize [9] = Inl IndexError \<and> \<not> spec_separator 9"
  by (simp add: to_camel_case_words camel_defs)

text \<open>
  Claim C10, amended: with the separators being the whitespace characters of
  \<^verbatim>\<open>str.split()\<close>, the hyphen and the underscore, \<^verbatim>\<open>to_camel_case\<close> fails with
  \<^verbatim>\<open>IndexError\<close> on every non-empty input made of separators only, and it returns
  a value exactly when the input is empty or contains a character that is not a
  separator, whatever \<^verbatim>\<open>str.capitalize\<close> does.  Space, hyphen and underscore are
  among these separators.
\<close>

theorem to_camel_case_returns_iff:
  "(text \<noteq> [] \<and> (\<forall>c\<in>set text. code_separator c)
      \<longrightarrow> to_camel_case capitalize text = Inl IndexError)
   \<and> ((\<exists>r. to_camel_case capitalize text = Inr r)
        \<longleftrightarrow> text = [] \<or> (\<exists>c\<in>set text. \<not> code_separator c))
   \<and> ((\<forall>c\<in>set text. spec_separator c) \<longrightarrow> (\<forall>c\<in>set text. code_separator c))"
proof (intro conjI impI iffI)
  assume "text \<noteq> [] \<and> (\<forall>c\<in>set text. code_separator c)"
  then have "text \<noteq> []" and "split_on code_separator [] text = []"
    by (simp_all add: split_on_empty_iff)
  then show "to_camel_case capitalize text = Inl IndexError"
    by (simp add: to_camel_case_words)
next
  assume "\<exists>r. to_camel_case capitalize text = Inr r"
  then obtain r where r: "to_camel_case capitalize text = Inr r" ..
  show "text = [] \<or> (\<exists>c\<in>set text. \<not> code_separator c)"
  proof (rule ccontr)
    assume "\<not> (text = [] \<or> (\<exists>c\<in>set text. \<not> code_separator c))"
    then have "text \<noteq> []" and "split_on code_separator [] text = []"
      by (simp_all add: split_on_empty_iff)
    then have "to_camel_case capitalize text = Inl IndexError"
      by (simp add: to_camel_case_words)
    with r show False by simp
  qed
next
  assume "text = [] \<or> (\<exists>c\<in>set text. \<not> code_separator c)"
  then show "\<exists>r. to_camel_case capitalize text = Inr r"
  proof
    assume "text = []"
    then show ?thesis by (simp add: to_camel_case_words)
  next
    assume "\<exists>c\<in>set text. \<not> code_separator c"
    then have "split_on code_separator [] text \<noteq> []"
      by (simp add: split_on_empty_iff)
    then obtain w ws where "split_on code_separator [] text = w # ws"
      by (cases "split_on code_separator [] text") auto
    then show ?thesis by (simp add: to_camel_case_words)
  qed
next
  assume "\<forall>c\<in>set text. spec_separator c"
  then show "\<forall>c\<in>set text. code_separator c"
    using spec_is_code_separator by blast
qed

theorem to_camel_case_returns_iff_witness:
  "to_camel_case ascii_capitalize [32, 0xA0, 45, 0x3000, 95] = Inl IndexError
   \<and> (\<exists>r. to_camel_case ascii_capitalize (lit ''a_'') = Inr r)"
proof -
  have h1: "[32, 0xA0, 45, 0x3000, 95] \<noteq> []
            \<and> (\<forall>c\<in>set [32, 0xA0, 45, 0x3000, 95]. code_separator c)"
    by (simp add: camel_defs)
  have h2: "lit ''a_'' = [] \<or> (\<exists>c\<in>set (lit ''a_''). \<not> code_separator c)"
    by (simp add: camel_defs)
  have a: "to_camel_case ascii_capitalize [32, 0xA0, 45, 0x3000, 95] = Inl IndexError"
    using to_camel_case_returns_iff
            [of "[32, 0xA0, 45, 0x3000, 95]" ascii_capitalize, THEN conjunct1] h1
    by (rule mp)
  have b: "\<exists>r. to_camel_case ascii_capitalize (lit ''a_'') = Inr r"
    using to_camel_case_returns_iff
            [of "lit ''a_''" ascii_capitalize, THEN conjunct2, THEN conjunct1] h2
    by (rule iffD2)
  from a b show ?thesis by simp
qed

section \<open>Facts about the example inputs\<close>

lemmas tree_defs = find_tag_def find_all_def strings_def get_text_def attr_def visibility_def
lemmas example_defs = example_vis_td_def example_name_td_def example_type_td_def
  example_desc_td_def example_row_def example_table_def

lemmas row_defs = example_row_id_def example_row_lines_def example_row_unknown_def
  example_row_unresolvable_def example_row_nameless_def example_row_link_outside_def

lemma example_cells:
  "has_name v \<Longrightarrow> has_name a \<Longrightarrow> has_name t \<Longrightarrow> has_name d \<Longrightarrow>
   filter has_name (contents (example_row v a t d)) = [v, a, t, d]"
  by (simp add: example_row_def)

lemma example_has_name:
  "has_name (example_vis_td title)" "has_name (example_name_td name)"
  "has_name (example_type_td tokens)" "has_name (example_desc_td desc)"
  "has_name (Elem ''td'' [] cs)"
  by (simp_all add: example_defs)

lemma example_name_code:
  "find_tag ''code'' (example_name_td name) = Some (Elem ''code'' [] [Text name])"
  by (simp add: example_defs tree_defs)

lemma example_type_code:
  "find_tag ''code'' (example_type_td tokens) = Some (Elem ''code'' [] tokens)"
  by (simp add: example_defs tree_defs)

lemma example_visibility:
  "visibility (Elem ''td'' [] []) = Inr (False, False)"
  "visibility (example_vis_td title)
     = Inr (title = ''Read-only attribute'', title = ''Required attribute'')"
  by (simp_all add: example_defs tree_defs)

lemma example_desc_text: "get_text (example_desc_td desc) = desc"
  by (simp add: example_defs tree_defs)

section \<open>Properties of the type resolution\<close>

lemma loop_body_resolved:
  assumes "filter has_name (contents tr) = [vis_td, attribute_td, type_td, desc_td]"
    and "find_tag ''code'' attribute_td = Some acode"
    and "visibility vis_td = Inr (ro, rq)"
    and "resolve_type lower type_td = Inr (ty, items, fmt, msgs)"
  shows "loop_body lower tr st =
           Inr \<lparr>required = (if rq then required st @ [dot_string acode] else required st),
                properties =
                  AList.update (dot_string acode)
                    (PDict (property_dict ty (get_text desc_td) items fmt)) (properties st),
                log = log st @ msgs\<rparr>"
  using assms by (simp add: loop_body_def Let_def)

lemma simple_types_lookup:
  "map_of SIMPLE_TYPES ''String'' = Some (PStr ''string'', PNone)"
  "map_of SIMPLE_TYPES ''Integer'' = Some (PStr ''integer'', PNone)"
  "map_of SIMPLE_TYPES ''Boolean'' = Some (PStr ''boolean'', PNone)"
  "map_of SIMPLE_TYPES ''DateTime'' = Some (PStr ''string'', PStr ''date-time'')"
  "map_of SIMPLE_TYPES ''Datetime'' = Some (PStr ''string'', PStr ''date-time'')"
  "map_of SIMPLE_TYPES ''Date'' = Some (PStr ''string'', PStr ''date'')"
  "map_of SIMPLE_TYPES ''Decimal'' = Some (PStr ''number'', PStr ''decimal'')"
  by (simp_all add: SIMPLE_TYPES_def)

lemma resolve_type_single:
  assumes "find_tag ''code'' type_td = Some tcode" and "strings tcode = [t]"
  shows "resolve_type lower type_td =
           (case map_of SIMPLE_TYPES t of
              None \<Rightarrow> Inr (PStr ''string'', PList [], PStr (lower t), [Error_Unknow_type t])
            | Some (prop_type, prop_format) \<Rightarrow> Inr (prop_type, PList [], prop_format, []))"
  using assms by (simp add: resolve_type_def Let_def split: option.split)

text \<open>
  Claim C1: when the \<^verbatim>\<open>code\<close> element of the type cell holds exactly one string
  and that string is a key of \<^verbatim>\<open>SIMPLE_TYPES\<close>, the type resolution yields the
  pair of the table and leaves \<^verbatim>\<open>items\<close> empty, so that the property gets no
  \<^verbatim>\<open>items\<close> key: \<^verbatim>\<open>String\<close> gives \<^verbatim>\<open>("string", None)\<close>, \<^verbatim>\<open>Integer\<close>
  \<^verbatim>\<open>("integer", None)\<close>, \<^verbatim>\<open>Boolean\<close> \<^verbatim>\<open>("boolean", None)\<close>, \<^verbatim>\<open>DateTime\<close>
  and \<^verbatim>\<open>Datetime\<close> \<^verbatim>\<open>("string", "date-time")\<close>, \<^verbatim>\<open>Date\<close>
  \<^verbatim>\<open>("string", "date")\<close> and \<^verbatim>\<open>Decimal\<close> \<^verbatim>\<open>("number", "decimal")\<close>; nothing
  is logged.
\<close>

theorem simple_type_resolved:
  assumes "find_tag ''code'' type_td = Some tcode" and "strings tcode = [t]"
  shows "(t = ''String'' \<longrightarrow>
            resolve_type lower type_td = Inr (PStr ''string'', PList [], PNone, []))
       \<and> (t = ''Integer'' \<longrightarrow>
            resolve_type lower type_td = Inr (PStr ''integer'', PList [], PNone, []))
       \<and> (t = ''Boolean'' \<longrightarrow>
            resolve_type lower type_td = Inr (PStr ''boolean'', PList [], PNone, []))
       \<and> (t = ''DateTime'' \<longrightarrow>
            resolve_type lower type_td = Inr (PStr ''string'', PList [], PStr ''date-time'', []))
       \<and> (t = ''Datetime'' \<longrightarrow>
            resolve_type lower type_td = Inr (PStr ''string'', PList [], PStr ''date-time'', []))
       \<and> (t = ''Date'' \<longrightarrow>
            resolve_type lower type_td = Inr (PStr ''string'', PList [], PStr ''date'', []))
       \<and> (t = ''Decimal'' \<longrightarrow>
            resolve_type lower type_td = Inr (PStr ''number'', PList [], PStr ''decimal'', []))
       \<and> map_of (property_dict ty desc (PList []) fmt) (PStr ''items'') = None"
proof -
  have items: "map_of (property_dict ty desc (PList []) fmt) (PStr ''items'') = None"
    by (simp add: property_dict_def Let_def)
  show ?thesis
    using items by (simp add: resolve_type_single [OF assms] simple_types_lookup)
qed

theorem simple_type_resolved_witness:
  "resolve_type ascii_lower (Elem ''td'' [] [Elem ''code'' [] [Text ''Decimal'']])
     = Inr (PStr ''number'', PList [], PStr ''decimal'', [])
   \<and> resolve_type ascii_lower (Elem ''td'' [] [Elem ''code'' [] [Text ''String'']])
     = Inr (PStr ''string'', PList [], PNone, [])"
proof -
  have f: "find_tag ''code'' (Elem ''td'' [] [Elem ''code'' [] [Text s]])
             = Some (Elem ''code'' [] [Text s])" for s
    by (simp add: find_tag_def)
  have s: "strings (Elem ''code'' [] [Text s]) = [s]" for s
    by (simp add: strings_def)
  from simple_type_resolved [OF f s, where t = "''Decimal''" and lower = ascii_lower]
       simple_type_resolved [OF f s, where t = "''String''" and lower = ascii_lower]
  show ?thesis by simp
qed


lemma resolve_type_other:
  assumes "find_tag ''code'' type_td = Some tcode"
    and "length (strings tcode) \<noteq> 1"
    and "strings tcode \<noteq> [''Array['', ''Object'', '']'']"
  shows "resolve_type lower type_td =
           Inr (PNone, PList [], PNone, [Error_Couldnt_make_sense type_td])"
  using assms by (simp add: resolve_type_def Let_def)


lemma property_dict_format:
  "property_dict ty desc (PList []) (PStr f) =
     [(PStr ''type'', ty), (PStr ''description'', PStr desc)]
     @ (if f = [] then [] else [(PStr ''format'', PStr f)])"
  by (simp add: property_dict_def Let_def)

lemma property_dict_plain:
  "property_dict ty desc (PList []) PNone =
     [(PStr ''type'', ty), (PStr ''description'', PStr desc)]"
  by (simp add: property_dict_def Let_def)




text \<open>
  Claim C3: when the type cell's \<^verbatim>\<open>code\<close> element holds exactly one string
  \<open>t\<close> that is no key of \<^verbatim>\<open>SIMPLE_TYPES\<close>, the type resolution yields type
  \<^verbatim>\<open>string\<close> and format \<open>lower t\<close>, whatever \<^verbatim>\<open>str.lower\<close> does to
  \<open>t\<close>, and logs an error; the row is processed to its end, its property is stored,
  and the loop goes on with the rows that follow.  (The \<^verbatim>\<open>format\<close> key is written
  by \<^verbatim>\<open>if prop_format:\<close>, hence when \<open>lower t\<close> is not empty.)
\<close>

theorem unknown_type_falls_back:
  assumes "filter has_name (contents tr) = [vis_td, attribute_td, type_td, desc_td]"
    and "find_tag ''code'' attribute_td = Some acode"
    and "visibility vis_td = Inr (ro, rq)"
    and "find_tag ''code'' type_td = Some tcode"
    and "strings tcode = [t]"
    and "map_of SIMPLE_TYPES t = None"
  shows "resolve_type lower type_td =
           Inr (PStr ''string'', PList [], PStr (lower t), [Error_Unknow_type t])
       \<and> (\<exists>st'. loop_body lower tr st = Inr st'
             \<and> log st' = log st @ [Error_Unknow_type t]
             \<and> map_of (properties st') (dot_string acode) =
                 Some (PDict
                        ([(PStr ''type'', PStr ''string''),
                          (PStr ''description'', PStr (get_text desc_td))]
                         @ (if lower t = [] then []
                            else [(PStr ''format'', PStr (lower t))])))
             \<and> rows_loop lower (tr # trs) st = rows_loop lower trs st')"
proof -
  have r: "resolve_type lower type_td =
             Inr (PStr ''string'', PList [], PStr (lower t), [Error_Unknow_type t])"
    using assms(6) by (simp add: resolve_type_single [OF assms(4,5)])
  note b = loop_body_resolved [OF assms(1-3) r, where st = st]
  show ?thesis
    by (simp add: r b update_conv' property_dict_format)
qed

theorem unknown_type_falls_back_witness:
  "\<exists>st'. loop_body ascii_lower example_row_unknown empty_state = Inr st'
     \<and> log st' = [Error_Unknow_type ''Float'']
     \<and> map_of (properties st') (PStr ''total'') =
         Some (PDict
                [(PStr ''type'', PStr ''string''),
                 (PStr ''description'', PStr ''Total''),
                 (PStr ''format'', PStr ''float'')])
     \<and> rows_loop ascii_lower [example_row_unknown, example_row_id] empty_state
         = rows_loop ascii_lower [example_row_id] st'"
proof -
  have c: "filter has_name (contents example_row_unknown) =
             [example_vis_td ''Read-only attribute'', example_name_td ''total'',
              example_type_td [Text ''Float''], example_desc_td ''Total'']"
    by (simp add: example_row_unknown_def example_cells example_has_name)
  have s: "strings (Elem ''code'' [] [Text ''Float'']) = [''Float'']"
    by (simp add: tree_defs)
  have u: "map_of SIMPLE_TYPES ''Float'' = None"
    by (simp add: SIMPLE_TYPES_def)
  have l: "ascii_lower ''Float'' = ''float''"
    by (simp add: ascii_lower_def)
  from unknown_type_falls_back
         [where st = empty_state and trs = "[example_row_id]" and lower = ascii_lower,
          OF c example_name_code example_visibility(2) example_type_code s u,
          THEN conjunct2]
  show ?thesis
    by (simp add: example_desc_text l empty_state_def)
qed

section \<open>Properties of the table loop\<close>

lemma loop_body_success:
  assumes "loop_body lower tr st = Inr st'"
  obtains vis_td attribute_td type_td desc_td acode ro rq ty items fmt msgs where
    "filter has_name (contents tr) = [vis_td, attribute_td, type_td, desc_td]"
    and "find_tag ''code'' attribute_td = Some acode"
    and "visibility vis_td = Inr (ro, rq)"
    and "resolve_type lower type_td = Inr (ty, items, fmt, msgs)"
    and "st' = \<lparr>required = (if rq then required st @ [dot_string acode] else required st),
                properties =
                  AList.update (dot_string acode)
                    (PDict (property_dict ty (get_text desc_td) items fmt)) (properties st),
                log = log st @ msgs\<rparr>"
  using assms
  by (auto simp: loop_body_def Let_def
           split: list.splits option.splits sum.splits prod.splits if_splits)

lemma loop_body_effect:
  assumes "loop_body lower tr st = Inr st'"
  shows "\<exists>k. prop_name_of tr = Some k
           \<and> fst ` set (properties st') = insert k (fst ` set (properties st))
           \<and> (\<forall>k'. k' \<noteq> k \<longrightarrow> map_of (properties st') k' = map_of (properties st) k')
           \<and> (\<exists>msgs. log st' = log st @ msgs)"
proof -
  from assms obtain vis_td attribute_td type_td desc_td acode ro rq ty items fmt msgs where
    c: "filter has_name (contents tr) = [vis_td, attribute_td, type_td, desc_td]"
    and a: "find_tag ''code'' attribute_td = Some acode"
    and s: "st' = \<lparr>required = (if rq then required st @ [dot_string acode] else required st),
                properties =
                  AList.update (dot_string acode)
                    (PDict (property_dict ty (get_text desc_td) items fmt)) (properties st),
                log = log st @ msgs\<rparr>"
    by (rule loop_body_success)
  have "prop_name_of tr = Some (dot_string acode)"
    by (simp add: prop_name_of_def c a)
  then show ?thesis
    by (simp add: s dom_update update_conv')
qed

lemma rows_loop_effect:
  assumes "rows_loop lower trs st = Inr st'"
  shows "fst ` set (properties st')
           = fst ` set (properties st) \<union> {k. \<exists>r\<in>set trs. prop_name_of r = Some k}
       \<and> (\<forall>k. (\<forall>r\<in>set trs. prop_name_of r \<noteq> Some k)
              \<longrightarrow> map_of (properties st') k = map_of (properties st) k)
       \<and> (\<exists>msgs. log st' = log st @ msgs)"
  using assms
proof (induction trs arbitrary: st)
  case Nil
  then show ?case by simp
next
  case (Cons r rs)
  from Cons.prems obtain s where s: "loop_body lower r st = Inr s"
    and rest: "rows_loop lower rs s = Inr st'"
    by (auto split: sum.splits)
  from loop_body_effect [OF s] obtain k m where
    k: "prop_name_of r = Some k"
    and keys: "fst ` set (properties s) = insert k (fst ` set (properties st))"
    and other: "\<forall>k'. k' \<noteq> k \<longrightarrow> map_of (properties s) k' = map_of (properties st) k'"
    and lg: "log s = log st @ m"
    by blast
  note ih = Cons.IH [OF rest]
  have a: "fst ` set (properties st')
             = fst ` set (properties st) \<union> {k. \<exists>r\<in>set (r # rs). prop_name_of r = Some k}"
    using ih keys k by auto
  have b: "\<forall>k'. (\<forall>r\<in>set (r # rs). prop_name_of r \<noteq> Some k')
              \<longrightarrow> map_of (properties st') k' = map_of (properties st) k'"
    using ih other k by auto
  have c: "\<exists>msgs. log st' = log st @ msgs"
    using ih lg by auto
  from a b c show ?case by blast
qed

lemma rows_loop_append:
  "rows_loop lower (pre @ post) st =
     (case rows_loop lower pre st of
        Inl e \<Rightarrow> Inl e
      | Inr st1 \<Rightarrow> rows_loop lower post st1)"
  by (induction pre arbitrary: st) (auto split: sum.splits)

text \<open>
  Claim C4: when the strings of the type cell's \<^verbatim>\<open>code\<close> element are neither a
  single string nor exactly \<^verbatim>\<open>Array[\<close>, \<^verbatim>\<open>Object\<close>, \<^verbatim>\<open>]\<close>, the type
  resolution yields type \<^verbatim>\<open>None\<close>, no format and no items and logs an error; the
  row stores a property with the keys \<^verbatim>\<open>type\<close> (with value \<^verbatim>\<open>None\<close>) and
  \<^verbatim>\<open>description\<close> only, and the call goes on with the rows that follow, from the
  state that holds this property.  When the call returns, the property name of the row
  and of every later row is a key of the properties returned, the error is in the log,
  and the entry of the row is the one with type \<^verbatim>\<open>None\<close> unless a later row
  has the same property name.
\<close>

theorem unresolvable_type_kept:
  assumes "find_tag ''tbody'' table = Some tbody"
    and "find_all ''tr'' tbody = earlier @ tr # later"
    and "rows_loop lower earlier \<lparr>required = [], properties = [], log = []\<rparr> = Inr st"
    and "filter has_name (contents tr) = [vis_td, attribute_td, type_td, desc_td]"
    and "find_tag ''code'' attribute_td = Some acode"
    and "visibility vis_td = Inr (ro, rq)"
    and "find_tag ''code'' type_td = Some tcode"
    and "length (strings tcode) \<noteq> 1"
    and "strings tcode \<noteq> [''Array['', ''Object'', '']'']"
  shows "resolve_type lower type_td =
           Inr (PNone, PList [], PNone, [Error_Couldnt_make_sense type_td])
       \<and> (\<exists>st'. loop_body lower tr st = Inr st'
             \<and> log st' = log st @ [Error_Couldnt_make_sense type_td]
             \<and> map_of (properties st') (dot_string acode) =
                 Some (PDict
                        [(PStr ''type'', PNone),
                         (PStr ''description'', PStr (get_text desc_td))])
             \<and> parse_attributes_table lower table = rows_loop lower later st')
       \<and> (\<forall>final. parse_attributes_table lower table = Inr final \<longrightarrow>
             dot_string acode \<in> fst ` set (properties final)
             \<and> Error_Couldnt_make_sense type_td \<in> set (log final)
             \<and> (\<forall>r\<in>set later. \<forall>k. prop_name_of r = Some k
                   \<longrightarrow> k \<in> fst ` set (properties final))
             \<and> ((\<forall>r\<in>set later. prop_name_of r \<noteq> Some (dot_string acode)) \<longrightarrow>
                   map_of (properties final) (dot_string acode) =
                     Some (PDict
                            [(PStr ''type'', PNone),
                             (PStr ''description'', PStr (get_text desc_td))])))"
proof -
  let ?entry = "PDict [(PStr ''type'', PNone), (PStr ''description'', PStr (get_text desc_td))]"
  let ?msg = "Error_Couldnt_make_sense type_td"
  define st' where
    "st' = \<lparr>required = (if rq then required st @ [dot_string acode] else required st),
            properties = AList.update (dot_string acode) ?entry (properties st),
            log = log st @ [?msg]\<rparr>"
  note r = resolve_type_other [OF assms(7-9), of lower]
  have b: "loop_body lower tr st = Inr st'"
    by (simp add: loop_body_resolved [OF assms(4-6) r] st'_def property_dict_plain)
  have lg: "log st' = log st @ [?msg]"
    and en: "map_of (properties st') (dot_string acode) = Some ?entry"
    by (simp_all add: st'_def update_conv')
  have p: "parse_attributes_table lower table = rows_loop lower later st'"
    by (simp add: parse_attributes_table_def assms(1-3) rows_loop_append b)
  have fin: "dot_string acode \<in> fst ` set (properties final)
             \<and> ?msg \<in> set (log final)
             \<and> (\<forall>r\<in>set later. \<forall>k. prop_name_of r = Some k
                   \<longrightarrow> k \<in> fst ` set (properties final))
             \<and> ((\<forall>r\<in>set later. prop_name_of r \<noteq> Some (dot_string acode)) \<longrightarrow>
                   map_of (properties final) (dot_string acode) = Some ?entry)"
    if "parse_attributes_table lower table = Inr final" for final
  proof -
    from that p have l: "rows_loop lower later st' = Inr final" by simp
    note e = rows_loop_effect [OF l]
    have "dot_string acode \<in> fst ` set (properties st')"
      by (simp add: st'_def dom_update)
    with e have k1: "dot_string acode \<in> fst ` set (properties final)" by blast
    from e lg have k2: "?msg \<in> set (log final)" by auto
    from e have k3: "\<forall>r\<in>set later. \<forall>k. prop_name_of r = Some k
                   \<longrightarrow> k \<in> fst ` set (properties final)" by blast
    from e en have k4: "(\<forall>r\<in>set later. prop_name_of r \<noteq> Some (dot_string acode)) \<longrightarrow>
                   map_of (properties final) (dot_string acode) = Some ?entry" by simp
    from k1 k2 k3 k4 show ?thesis by blast
  qed
  from r b lg en p fin show ?thesis by blast
qed

theorem unresolvable_type_kept_witness:
  "\<exists>final. parse_attributes_table ascii_lower
              (example_table [example_row_id, example_row_unresolvable, example_row_lines])
            = Inr final
     \<and> map_of (properties final) (PStr ''tags'') =
         Some (PDict [(PStr ''type'', PNone), (PStr ''description'', PStr ''Tags'')])
     \<and> PStr ''tags'' \<in> fst ` set (properties final)
     \<and> PStr ''lines'' \<in> fst ` set (properties final)
     \<and> Error_Couldnt_make_sense
          (example_type_td [Text ''Array['', Elem ''i'' [] [Text ''String''], Text '']''])
          \<in> set (log final)"
proof -
  let ?tokens = "[Text ''Array['', Elem ''i'' [] [Text ''String''], Text '']'']"
  let ?rows = "[example_row_id, example_row_unresolvable, example_row_lines]"
  have tb: "find_tag ''tbody'' (example_table ?rows) = Some (Elem ''tbody'' [] ?rows)"
    by (simp add: example_table_def tree_defs)
  have fa: "find_all ''tr'' (Elem ''tbody'' [] ?rows)
              = [example_row_id] @ example_row_unresolvable # [example_row_lines]"
    by (simp add: find_all_def row_defs example_defs)
  have ea: "rows_loop ascii_lower [example_row_id] \<lparr>required = [], properties = [], log = []\<rparr>
              = Inr \<lparr>required = [PStr ''id''],
                     properties =
                       [(PStr ''id'',
                         PDict [(PStr ''type'', PStr ''integer''),
                                (PStr ''description'', PStr ''The id'')])],
                     log = []\<rparr>"
    by (simp add: row_defs example_defs tree_defs loop_body_def resolve_type_def
          SIMPLE_TYPES_def property_dict_def Let_def)
  have c: "filter has_name (contents example_row_unresolvable) =
             [Elem ''td'' [] [], example_name_td ''tags'', example_type_td ?tokens,
              example_desc_td ''Tags'']"
    by (simp add: example_row_unresolvable_def example_cells example_has_name)
  have s1: "length (strings (Elem ''code'' [] ?tokens)) \<noteq> 1"
    by (simp add: tree_defs)
  have s2: "strings (Elem ''code'' [] ?tokens) \<noteq> [''Array['', ''Object'', '']'']"
    by (simp add: tree_defs)
  have ln: "\<forall>r\<in>set [example_row_lines].
              prop_name_of r \<noteq> Some (dot_string (Elem ''code'' [] [Text ''tags'']))"
    by (simp add: prop_name_of_def row_defs example_defs tree_defs)
  have lk: "prop_name_of example_row_lines = Some (PStr ''lines'')"
    by (simp add: prop_name_of_def row_defs example_defs tree_defs)
  note t = unresolvable_type_kept
             [where lower = ascii_lower,
              OF tb fa ea c example_name_code example_visibility(1) example_type_code s1 s2]
  from t obtain st' where
    "parse_attributes_table ascii_lower (example_table ?rows)
       = rows_loop ascii_lower [example_row_lines] st'"
    and "loop_body ascii_lower example_row_unresolvable
           \<lparr>required = [PStr ''id''],
            properties =
              [(PStr ''id'',
                PDict [(PStr ''type'', PStr ''integer''),
                       (PStr ''description'', PStr ''The id'')])],
            log = []\<rparr> = Inr st'"
    by blast
  then obtain final where
    f: "parse_attributes_table ascii_lower (example_table ?rows) = Inr final"
    by (simp add: row_defs example_defs tree_defs loop_body_def resolve_type_def
          SIMPLE_TYPES_def property_dict_def dereference_def lstrip_hash_def Let_def)
  from t [THEN conjunct2, THEN conjunct2, rule_format, OF f] ln lk f
  show ?thesis
    by (auto simp: example_desc_text)
qed

lemma loop_body_no_code:
  assumes "filter has_name (contents tr) = [vis_td, attribute_td, type_td, desc_td]"
    and "find_tag ''code'' attribute_td = None"
  shows "loop_body lower tr st = Inl AttributeError"
  using assms by (simp add: loop_body_def)

lemma rows_loop_fails:
  assumes "tr \<in> set trs" and "\<And>st. \<exists>e. loop_body lower tr st = Inl e"
  shows "\<exists>e. rows_loop lower trs st = Inl e"
  using assms(1)
proof (induction trs arbitrary: st)
  case Nil
  then show ?case by simp
next
  case (Cons r rs)
  show ?case
  proof (cases "loop_body lower r st")
    case (Inl e)
    then show ?thesis by simp
  next
    case (Inr st')
    have "r \<noteq> tr" using assms(2) [of st] Inr by auto
    with Cons.prems have "tr \<in> set rs" by simp
    from Cons.IH [OF this] Inr show ?thesis by simp
  qed
qed

text \<open>
  Claim C5, as stated, on a table of two rows whose first row has no \<^verbatim>\<open>code\<close>
  element in its attribute cell: the call raises \<^verbatim>\<open>AttributeError\<close>, and the
  property of the second row, which the same row alone does produce, is not returned.
\<close>

theorem malformed_row_not_skipped:
  "parse_attributes_table ascii_lower (example_table [example_row_nameless, example_row_id])
     = Inl AttributeError
   \<and> parse_attributes_table ascii_lower (example_table [example_row_id])
     = Inr \<lparr>required = [PStr ''id''],
            properties =
              [(PStr ''id'',
                PDict [(PStr ''type'', PStr ''integer''),
                       (PStr ''description'', PStr ''The id'')])],
            log = []\<rparr>"
  by (simp add: parse_attributes_table_def example_defs tree_defs loop_body_def
        example_row_nameless_def example_row_id_def resolve_type_def SIMPLE_TYPES_def
        property_dict_def Let_def)

text \<open>
  Claim C5, amended: a row whose attribute cell has no \<^verbatim>\<open>code\<close> element is not
  skipped.  Processing it raises \<^verbatim>\<open>AttributeError\<close>, nothing in the loop catches
  an exception, and \<^verbatim>\<open>parse_attributes_table\<close> on a table that contains such a row
  ends in an exception: it returns no properties, neither of this row nor of any other.
\<close>

theorem malformed_row_aborts_table:
  assumes "find_tag ''tbody'' table = Some tbody"
    and "tr \<in> set (find_all ''tr'' tbody)"
    and "filter has_name (contents tr) = [vis_td, attribute_td, type_td, desc_td]"
    and "find_tag ''code'' attribute_td = None"
  shows "loop_body lower tr st = Inl AttributeError
       \<and> (\<exists>e. parse_attributes_table lower table = Inl e)"
proof -
  have row: "loop_body lower tr s = Inl AttributeError" for s
    by (rule loop_body_no_code [OF assms(3,4)])
  then have "\<And>s. \<exists>e. loop_body lower tr s = Inl e" by simp
  from rows_loop_fails [OF assms(2) this]
  have "\<exists>e. parse_attributes_table lower table = Inl e"
    by (simp add: parse_attributes_table_def assms(1))
  with row show ?thesis by simp
qed

theorem malformed_row_aborts_table_witness:
  "\<exists>e. parse_attributes_table ascii_lower (example_table [example_row_id, example_row_nameless]) = Inl e"
proof -
  have b: "find_tag ''tbody'' (example_table [example_row_id, example_row_nameless])
             = Some (Elem ''tbody'' [] [example_row_id, example_row_nameless])"
    by (simp add: example_table_def tree_defs)
  have m: "example_row_nameless
             \<in> set (find_all ''tr'' (Elem ''tbody'' [] [example_row_id, example_row_nameless]))"
    by (simp add: example_row_nameless_def example_row_id_def example_row_def find_all_def)
  have c: "filter has_name (contents example_row_nameless) =
             [Elem ''td'' [] [], Elem ''td'' [] [Text ''note''],
              example_type_td [Text ''String''], example_desc_td ''A note'']"
    by (simp add: example_row_nameless_def example_cells example_has_name)
  have n: "find_tag ''code'' (Elem ''td'' [] [Text ''note'']) = None"
    by (simp add: tree_defs)
  from malformed_row_aborts_table [OF b m c n, THEN conjunct2]
  show ?thesis .
qed

lemma loop_body_keeps_required:
  assumes "loop_body lower tr st = Inr st'"
    and "set (required st) \<subseteq> fst ` set (properties st)"
  shows "set (required st') \<subseteq> fst ` set (properties st')"
  using assms
  by (auto simp: loop_body_def Let_def dom_update
           split: list.splits option.splits sum.splits prod.splits if_splits)

lemma rows_loop_keeps_required:
  assumes "rows_loop lower trs st = Inr st'"
    and "set (required st) \<subseteq> fst ` set (properties st)"
  shows "set (required st') \<subseteq> fst ` set (properties st')"
  using assms
proof (induction trs arbitrary: st)
  case Nil
  then show ?case by simp
next
  case (Cons r rs)
  from Cons.prems(1) obtain s where s: "loop_body lower r st = Inr s" and rest: "rows_loop lower rs s = Inr st'"
    by (auto split: sum.splits)
  from Cons.IH [OF rest loop_body_keeps_required [OF s Cons.prems(2)]]
  show ?case .
qed

text \<open>
  Claim C9: whenever \<^verbatim>\<open>parse_attributes_table\<close> returns, every entry of the
  \<^verbatim>\<open>required\<close> list it returns is a key of the \<^verbatim>\<open>properties\<close> dictionary it
  returns.
\<close>

theorem required_names_are_properties:
  assumes "parse_attributes_table lower table = Inr st"
  shows "set (required st) \<subseteq> fst ` set (properties st)"
proof -
  from assms obtain tbody where
    "rows_loop lower (find_all ''tr'' tbody) \<lparr>required = [], properties = [], log = []\<rparr> = Inr st"
    by (auto simp: parse_attributes_table_def split: option.splits)
  from rows_loop_keeps_required [OF this] show ?thesis by simp
qed

theorem required_names_are_properties_witness:
  "\<exists>st. parse_attributes_table ascii_lower (example_table [example_row_id, example_row_lines]) = Inr st
     \<and> required st = [PStr ''id'']
     \<and> set (required st) \<subseteq> fst ` set (properties st)"
proof -
  have e: "parse_attributes_table ascii_lower (example_table [example_row_id, example_row_lines])
           = Inr \<lparr>required = [PStr ''id''],
                  properties =
                    [(PStr ''id'',
                      PDict [(PStr ''type'', PStr ''integer''),
                             (PStr ''description'', PStr ''The id'')]),
                     (PStr ''lines'',
                      PDict [(PStr ''type'', PStr ''array''),
                             (PStr ''description'', PStr ''Invoice lines''),
                             (PStr ''items'',
                              PDict [(PStr ''$ref'', PStr ''#/components/schemas/Line'')])])],
                  log = [Info_Dereferencing ''#Line'']\<rparr>"
    by (simp add: parse_attributes_table_def example_defs tree_defs loop_body_def
          example_row_lines_def example_row_id_def resolve_type_def SIMPLE_TYPES_def
          property_dict_def dereference_def lstrip_hash_def Let_def)
  from required_names_are_properties [OF e] e show ?thesis by simp
qed

section \<open>Properties of the registry and the document\<close>

lemma insert_schemas_error:
  "snd (insert_schemas reg items) = None \<or> snd (insert_schemas reg items) = Some AssertionError"
  by (induction reg items rule: insert_schemas.induct) auto

lemma insert_schemas_keeps:
  "map_of reg n = Some d \<Longrightarrow> map_of (fst (insert_schemas reg items)) n = Some d"
proof (induction reg items rule: insert_schemas.induct)
  case (1 reg)
  then show ?case by simp
next
  case (2 reg cls_name defn items)
  show ?case
  proof (cases "cls_name \<in> set (map fst reg)")
    case True
    with "2.prems" show ?thesis by simp
  next
    case False
    then have "map_of reg cls_name = None"
      by (simp add: map_of_eq_None_iff)
    with "2.prems" have "cls_name \<noteq> n" by auto
    with "2.prems" have "map_of (AList.update cls_name defn reg) n = Some d"
      by (simp add: update_conv')
    from "2.IH" [OF False this] False show ?thesis by simp
  qed
qed

lemma insert_schemas_keys:
  "n \<in> set (map fst reg) \<Longrightarrow> n \<in> set (map fst (fst (insert_schemas reg items)))"
proof (induction reg items rule: insert_schemas.induct)
  case (1 reg)
  then show ?case by simp
next
  case (2 reg cls_name defn items)
  show ?case
  proof (cases "cls_name \<in> set (map fst reg)")
    case True
    with "2.prems" show ?thesis by simp
  next
    case False
    from "2.prems" have "n \<in> set (map fst (AList.update cls_name defn reg))"
      by (simp add: update_keys)
    from "2.IH" [OF False this] False show ?thesis by simp
  qed
qed

lemma insert_schemas_collision:
  "n \<in> set (map fst reg) \<Longrightarrow> n \<in> set (map fst items) \<Longrightarrow>
   snd (insert_schemas reg items) = Some AssertionError"
proof (induction reg items rule: insert_schemas.induct)
  case (1 reg)
  then show ?case by simp
next
  case (2 reg cls_name defn items)
  show ?case
  proof (cases "cls_name \<in> set (map fst reg)")
    case True
    then show ?thesis by simp
  next
    case False
    with "2.prems" have "cls_name \<noteq> n" by auto
    with "2.prems" have a: "n \<in> set (map fst items)" by auto
    from "2.prems" have b: "n \<in> set (map fst (AList.update cls_name defn reg))"
      by (simp add: update_keys)
    from "2.IH" [OF False b a] False show ?thesis by simp
  qed
qed

lemma main_loop_keeps:
  "map_of reg n = Some d \<Longrightarrow> map_of (fst (main_loop reg pages)) n = Some d"
proof (induction pages arbitrary: reg)
  case Nil
  then show ?case by simp
next
  case (Cons p ps)
  show ?case
  proof (cases p)
    case None
    with Cons show ?thesis by simp
  next
    case (Some items)
    obtain reg' r where i: "insert_schemas reg items = (reg', r)"
      by (cases "insert_schemas reg items")
    with insert_schemas_keeps [OF Cons.prems, of items]
    have k: "map_of reg' n = Some d" by simp
    show ?thesis
      using Some i k Cons.IH [OF k] Cons.IH [OF Cons.prems]
      by (cases r) auto
  qed
qed

lemma main_loop_collision:
  "n \<in> set (map fst reg) \<Longrightarrow> Some items \<in> set pages \<Longrightarrow> n \<in> set (map fst items) \<Longrightarrow>
   snd (main_loop reg pages) = Some AssertionError"
proof (induction pages arbitrary: reg)
  case Nil
  then show ?case by simp
next
  case (Cons p ps)
  show ?case
  proof (cases p)
    case None
    with Cons.prems have "Some items \<in> set ps" by auto
    from Cons.IH [OF Cons.prems(1) this Cons.prems(3)] None show ?thesis by simp
  next
    case (Some d)
    obtain reg' r where i: "insert_schemas reg d = (reg', r)"
      by (cases "insert_schemas reg d")
    from insert_schemas_keys [OF Cons.prems(1), of d] i
    have k: "n \<in> set (map fst reg')" by simp
    from insert_schemas_error [of reg d] i
    have e: "r = None \<or> r = Some AssertionError" by simp
    show ?thesis
    proof (cases "d = items")
      case True
      from insert_schemas_collision [OF Cons.prems(1) Cons.prems(3)] True i
      have "r = Some AssertionError" by simp
      moreover from True Cons.prems(3) have "d \<noteq> []" by auto
      ultimately show ?thesis using Some i by simp
    next
      case False
      with Some Cons.prems have in_ps: "Some items \<in> set ps" by auto
      from e show ?thesis
      proof
        assume "r = None"
        with Some i Cons.IH [OF k in_ps Cons.prems(3)]
             Cons.IH [OF Cons.prems(1) in_ps Cons.prems(3)]
        show ?thesis by simp
      next
        assume "r = Some AssertionError"
        with Some i Cons.IH [OF Cons.prems(1) in_ps Cons.prems(3)]
        show ?thesis by simp
      qed
    qed
  qed
qed

lemma main_loop_append:
  "main_loop reg (ps @ qs) =
     (case main_loop reg ps of
        (reg', None) \<Rightarrow> main_loop reg' qs
      | (reg', Some e) \<Rightarrow> (reg', Some e))"
  by (induction ps arbitrary: reg) (auto split: option.splits prod.splits)

text \<open>
  Claim C6: when the registry built from the earlier pages already holds a schema
  under a name and a later page yields that name again, the assertion fails before
  the assignment, so the insertion leaves the registry as it was; the run ends in
  \<^verbatim>\<open>AssertionError\<close> without pushing a document, and the registry at that moment
  still maps the name to the schema inserted first.
\<close>

theorem duplicate_name_aborts:
  assumes "main_loop [] earlier = (reg, None)"
    and "map_of reg cls_name = Some first"
    and "Some items \<in> set pages"
    and "(cls_name, second) \<in> set items"
  shows "insert_schemas reg ((cls_name, second) # rest) = (reg, Some AssertionError)
       \<and> (\<exists>reg'. main_loop [] (earlier @ pages) = (reg', Some AssertionError)
                 \<and> map_of reg' cls_name = Some first)
       \<and> main (earlier @ pages) = Inl AssertionError"
proof -
  from assms(2) have k: "cls_name \<in> set (map fst reg)"
    by (metis map_of_eq_None_iff option.distinct(1) set_map)
  from assms(4) have i: "cls_name \<in> set (map fst items)"
    by force
  have a: "insert_schemas reg ((cls_name, second) # rest) = (reg, Some AssertionError)"
    using k by simp
  have b: "snd (main_loop reg pages) = Some AssertionError"
    by (rule main_loop_collision [OF k assms(3) i])
  have c: "map_of (fst (main_loop reg pages)) cls_name = Some first"
    by (rule main_loop_keeps [OF assms(2)])
  have d: "main_loop [] (earlier @ pages) = main_loop reg pages"
    by (simp add: main_loop_append assms(1))
  from a b c d show ?thesis
    by (cases "main_loop reg pages") (simp add: main_def)
qed

theorem duplicate_name_aborts_witness:
  "(\<exists>reg'. main_loop []
             [Some [(PStr ''invoice.Attributes'', example_schema ''first'')], None,
              Some [(PStr ''expense.Attributes'', example_schema ''other'')],
              Some [(PStr ''invoice.Attributes'', example_schema ''second'')],
              Some [(PStr ''subject.Attributes'', example_schema ''later'')]]
           = (reg', Some AssertionError)
         \<and> map_of reg' (PStr ''invoice.Attributes'') = Some (example_schema ''first''))
   \<and> main [Some [(PStr ''invoice.Attributes'', example_schema ''first'')], None,
            Some [(PStr ''expense.Attributes'', example_schema ''other'')],
            Some [(PStr ''invoice.Attributes'', example_schema ''second'')],
            Some [(PStr ''subject.Attributes'', example_schema ''later'')]]
       = Inl AssertionError"
proof -
  let ?reg = "[(PStr ''invoice.Attributes'', example_schema ''first'')]"
  let ?pages = "[None, Some [(PStr ''expense.Attributes'', example_schema ''other'')],
      Some [(PStr ''invoice.Attributes'', example_schema ''second'')],
      Some [(PStr ''subject.Attributes'', example_schema ''later'')]]"
  have e: "main_loop [] [Some ?reg] = (?reg, None)"
    by simp
  have a: "map_of ?reg (PStr ''invoice.Attributes'') = Some (example_schema ''first'')"
    by simp
  have b: "Some [(PStr ''invoice.Attributes'', example_schema ''second'')] \<in> set ?pages"
    by simp
  have c: "(PStr ''invoice.Attributes'', example_schema ''second'')
             \<in> set [(PStr ''invoice.Attributes'', example_schema ''second'')]"
    by simp
  from duplicate_name_aborts [OF e a b c, THEN conjunct2]
  show ?thesis by simp
qed

text \<open>
  Claim C7 on the code: the document has the key \<^verbatim>\<open>openapi\<close> with value
  \<^verbatim>\<open>3.0.4\<close>, the \<^verbatim>\<open>info\<close> object, the \<^verbatim>\<open>externalDoc\<close> object and the
  \<^verbatim>\<open>components\<close> object whose \<^verbatim>\<open>schemas\<close> member is the registry, but its
  \<^verbatim>\<open>servers\<close> member is a single object with the keys \<^verbatim>\<open>url\<close> and
  \<^verbatim>\<open>description\<close>, not a list.  This holds for every registry, in particular for
  the run in which no page yields a schema.
\<close>

theorem servers_is_not_a_list:
  "main [] = Inr (openapi [])
   \<and> dict_get (openapi schemas) ''openapi'' = Some (PStr ''3.0.4'')
   \<and> dict_get (openapi schemas) ''info'' = Some openapi_info
   \<and> is_dict openapi_info
   \<and> dict_get (openapi schemas) ''servers'' =
        Some (PDict [(PStr ''url'', PStr ''https://app.fakturoid.cz/api/v3''),
                     (PStr ''description'', PStr ''Production Fakturoid server'')])
   \<and> \<not> is_list (PDict [(PStr ''url'', PStr ''https://app.fakturoid.cz/api/v3''),
                        (PStr ''description'', PStr ''Production Fakturoid server'')])
   \<and> dict_get (openapi schemas) ''externalDoc'' =
        Some (PDict [(PStr ''description'', PStr ''Published documentation''),
                     (PStr ''url'', PStr ''https://www.fakturoid.cz/api/v3'')])
   \<and> dict_get (openapi schemas) ''components'' = Some (PDict [(PStr ''schemas'', PDict schemas)])"
  by (simp add: main_def openapi_def openapi_info_def)

end
